theory Spec2Isabelle
  imports Complex_Main "HOL-Library.Log_Nat" "HOL-Library.Char_ord" "HOL-Library.List_Lexorder"
begin

section \<open>Python values\<close>

text \<open>
  The entity in \<^verbatim>\<open>lg_soundbar/media_player.py\<close> stores whatever the device's JSON
  payload carries, so its attributes hold dynamically typed values. A float is either a
  finite binary64 number, kept as the rational it denotes, an infinity or a NaN; the two
  zeros are identified (no operation used here distinguishes them).
\<close>

datatype pyfloat = Finite rat | PosInf | NegInf | NaN

datatype pyval =
    PNone
  | PBool bool
  | PInt int
  | PFloat pyfloat
  | PStr string
  | PList "pyval list"
  | PDict "(string \<times> pyval) list"

datatype py_error =
    KeyError string
  | TypeError
  | ValueError
  | IndexError
  | AttributeError
  | OverflowError
  | ZeroDivisionError

text \<open>How a method call ends: it returns, or an exception leaves it.\<close>

datatype completion = Returned | Raised py_error

text \<open>Truth value of an object, as \<^verbatim>\<open>if x:\<close> tests it.\<close>

fun truthy :: "pyval \<Rightarrow> bool" where
  "truthy PNone = False"
| "truthy (PBool b) = b"
| "truthy (PInt n) = (n \<noteq> 0)"
| "truthy (PFloat (Finite q)) = (q \<noteq> 0)"
| "truthy (PFloat _) = True"
| "truthy (PStr s) = (s \<noteq> [])"
| "truthy (PList xs) = (xs \<noteq> [])"
| "truthy (PDict kvs) = (kvs \<noteq> [])"

section \<open>The entity\<close>

text \<open>Only the two states the integration assigns are needed.\<close>

datatype media_player_state = ON | OFF

text \<open>
  The commands the entity sends through its \<^verbatim>\<open>temescal\<close> handle. The handle is
  represented by the list of commands sent through it so far, oldest first.
\<close>

datatype command = SetVolume int | SetFunc nat | SetEq nat

text \<open>
  The attributes of \<^verbatim>\<open>LGDevice\<close>. \<open>function_attr\<close> and \<open>functions_attr\<close> are
  \<^verbatim>\<open>_function\<close> and \<^verbatim>\<open>_functions\<close> (the plain names are reserved words). \<open>device\<close> is \<^verbatim>\<open>_device\<close>: \<open>None\<close> until the connection is made.
  \<open>state_updates\<close> counts the calls of \<^verbatim>\<open>schedule_update_ha_state\<close>.
\<close>

record lgdevice =
  host :: string
  port :: int
  attr_unique_id :: "string option"
  attr_state :: media_player_state
  attr_name :: pyval
  volume :: pyval
  volume_min :: pyval
  volume_max :: pyval
  function_attr :: pyval
  functions_attr :: pyval
  equaliser :: pyval
  equalisers :: pyval
  mute :: pyval
  rear_volume :: pyval
  rear_volume_min :: pyval
  rear_volume_max :: pyval
  woofer_volume :: pyval
  woofer_volume_min :: pyval
  woofer_volume_max :: pyval
  bass :: pyval
  treble :: pyval
  device :: "command list option"
  state_updates :: nat

text \<open>
  Modelled from the spec: the default of \<^verbatim>\<open>_attr_name\<close>, which the platform's entity
  base class declares and which is not part of the source at hand. The display name is
  "string or unset" and is set only by a settings event, so it starts as \<^verbatim>\<open>None\<close>.
\<close>

definition attr_name_default :: pyval where
  "attr_name_default = PNone"

text \<open>\<^verbatim>\<open>__init__\<close>, with the class attribute \<^verbatim>\<open>_attr_state = MediaPlayerState.ON\<close>.\<close>

definition lgdevice_init :: "string \<Rightarrow> int \<Rightarrow> string option \<Rightarrow> lgdevice" where
  "lgdevice_init h p uid =
     \<lparr> host = h, port = p, attr_unique_id = uid,
       attr_state = ON, attr_name = attr_name_default,
       volume = PInt 0, volume_min = PInt 0, volume_max = PInt 0,
       function_attr = PInt (- 1), functions_attr = PList [],
       equaliser = PInt (- 1), equalisers = PList [],
       mute = PInt 0,
       rear_volume = PInt 0, rear_volume_min = PInt 0, rear_volume_max = PInt 0,
       woofer_volume = PInt 0, woofer_volume_min = PInt 0, woofer_volume_max = PInt 0,
       bass = PInt 0, treble = PInt 0,
       device = None, state_updates = 0 \<rparr>"

section \<open>Inbound events\<close>

text \<open>
  A message from the transport: its kind tag and its payload, a dictionary from key
  names to values.
\<close>

type_synonym payload = "string \<rightharpoonup> pyval"

record response =
  msg :: string
  data :: payload

definition get_value :: "payload \<Rightarrow> string \<Rightarrow> pyval \<Rightarrow> pyval" where
  "get_value d key default_value =
     (case d key of Some v \<Rightarrow> v | None \<Rightarrow> default_value)"

definition handle_eq_view_info_event :: "lgdevice \<Rightarrow> payload \<Rightarrow> completion \<times> lgdevice" where
  "handle_eq_view_info_event s d =
     (let s = s\<lparr>bass := get_value d ''i_bass'' (bass s)\<rparr>;
          s = s\<lparr>treble := get_value d ''i_treble'' (treble s)\<rparr>;
          s = s\<lparr>equalisers := get_value d ''ai_eq_list'' (equalisers s)\<rparr>;
          s = s\<lparr>equaliser := get_value d ''i_curr_eq'' (equaliser s)\<rparr>
      in (Returned, s))"

text \<open>
  The membership test reads \<^verbatim>\<open>b_powerstatus\<close>, the subscript reads
  \<^verbatim>\<open>b_power_status\<close>; a subscript on an absent key raises \<^verbatim>\<open>KeyError\<close>, after the four
  assignments above it have taken effect.
\<close>

definition handle_spk_list_view_info_event :: "lgdevice \<Rightarrow> payload \<Rightarrow> completion \<times> lgdevice" where
  "handle_spk_list_view_info_event s d =
     (let s = s\<lparr>volume := get_value d ''i_vol'' (volume s)\<rparr>;
          s = s\<lparr>volume_min := get_value d ''i_vol_min'' (volume_min s)\<rparr>;
          s = s\<lparr>volume_max := get_value d ''i_vol_max'' (volume_max s)\<rparr>;
          s = s\<lparr>function_attr := get_value d ''i_curr_func'' (function_attr s)\<rparr>
      in if d ''b_powerstatus'' \<noteq> None then
           (case d ''b_power_status'' of
              None \<Rightarrow> (Raised (KeyError ''b_power_status''), s)
            | Some v \<Rightarrow>
                if truthy v then (Returned, s\<lparr>attr_state := ON\<rparr>)
                else (Returned, s\<lparr>attr_state := OFF\<rparr>))
         else (Returned, s))"

definition handle_func_view_info_event :: "lgdevice \<Rightarrow> payload \<Rightarrow> completion \<times> lgdevice" where
  "handle_func_view_info_event s d =
     (let s = s\<lparr>function_attr := get_value d ''i_curr_func'' (function_attr s)\<rparr>;
          s = s\<lparr>functions_attr := get_value d ''ai_func_list'' (functions_attr s)\<rparr>
      in (Returned, s))"

definition handle_setting_view_info_event :: "lgdevice \<Rightarrow> payload \<Rightarrow> completion \<times> lgdevice" where
  "handle_setting_view_info_event s d =
     (let s = s\<lparr>rear_volume_min := get_value d ''i_rear_min'' (rear_volume_min s)\<rparr>;
          s = s\<lparr>rear_volume_max := get_value d ''i_rear_max'' (rear_volume_max s)\<rparr>;
          s = s\<lparr>rear_volume := get_value d ''i_rear_level'' (rear_volume s)\<rparr>;
          s = s\<lparr>woofer_volume_min := get_value d ''i_woofer_min'' (woofer_volume_min s)\<rparr>;
          s = s\<lparr>woofer_volume_max := get_value d ''i_woofer_max'' (woofer_volume_max s)\<rparr>;
          s = s\<lparr>woofer_volume := get_value d ''i_woofer_level'' (woofer_volume s)\<rparr>;
          s = s\<lparr>equaliser := get_value d ''i_curr_eq'' (equaliser s)\<rparr>;
          s = s\<lparr>attr_name := get_value d ''s_user_name'' (attr_name s)\<rparr>
      in (Returned, s))"

text \<open>
  Modelled from the spec: \<^verbatim>\<open>schedule_update_ha_state\<close> belongs to the platform's
  entity base class; it is the no-argument "state changed" notification and is counted.
\<close>

definition schedule_update_ha_state :: "lgdevice \<Rightarrow> completion \<times> lgdevice" where
  "schedule_update_ha_state s = (Returned, s\<lparr>state_updates := state_updates s + 1\<rparr>)"

text \<open>
  \<^verbatim>\<open>handle_event\<close>: dispatch on the tag, then notify. An exception raised by a handler
  leaves \<^verbatim>\<open>handle_event\<close> before the notification is reached.
\<close>

definition handle_event :: "lgdevice \<Rightarrow> response \<Rightarrow> completion \<times> lgdevice" where
  "handle_event s r =
     (let d = data r;
          (c, s) =
            (if msg r = ''EQ_VIEW_INFO'' then handle_eq_view_info_event s d
             else if msg r = ''SPK_LIST_VIEW_INFO'' then handle_spk_list_view_info_event s d
             else if msg r = ''FUNC_VIEW_INFO'' then handle_func_view_info_event s d
             else if msg r = ''SETTING_VIEW_INFO'' then handle_setting_view_info_event s d
             else (Returned, s))
      in case c of
           Raised e \<Rightarrow> (Raised e, s)
         | Returned \<Rightarrow> schedule_update_ha_state s)"

text \<open>
  The transport calls the callback once per message; the object keeps whatever a call
  assigned before it ended, so a stream of messages is the fold of \<open>handle_event\<close>.
\<close>

fun handle_events :: "lgdevice \<Rightarrow> response list \<Rightarrow> lgdevice" where
  "handle_events s [] = s"
| "handle_events s (r # rs) = handle_events (snd (handle_event s r)) rs"

definition is_volume_muted :: "lgdevice \<Rightarrow> pyval" where
  "is_volume_muted s = mute s"

section \<open>Arithmetic of the Python runtime\<close>

text \<open>
  Python's \<^verbatim>\<open>bool\<close> is a subclass of \<^verbatim>\<open>int\<close>: wherever an integer is expected,
  \<^verbatim>\<open>True\<close> is 1 and \<^verbatim>\<open>False\<close> is 0.
\<close>

fun as_int :: "pyval \<Rightarrow> int option" where
  "as_int (PInt n) = Some n"
| "as_int (PBool b) = Some (if b then 1 else 0)"
| "as_int _ = None"

text \<open>
  Rounding to binary64, to nearest with ties to even: 53 significant bits, the least
  exponent \<open>-1022\<close> (below it the spacing stays \<open>2^-1074\<close>), overflow from \<open>2^1024\<close>.
  \<open>ilog2 x\<close> is \<open>\<lfloor>log\<^sub>2 x\<rfloor>\<close> for a positive rational \<open>x\<close>, from the bit lengths of
  its numerator and denominator. \<open>round_half_even\<close> rounds to the nearest integer, a
  tie to the even one; it is also what \<^verbatim>\<open>round(x)\<close> returns for a float \<open>x\<close>.
\<close>

definition pow2 :: "int \<Rightarrow> rat" where
  "pow2 e = (if 0 \<le> e then 2 ^ nat e else 1 / 2 ^ nat (- e))"

definition round_half_even :: "rat \<Rightarrow> int" where
  "round_half_even x =
     (let f = \<lfloor>x\<rfloor>; d = x - of_int f
      in if d < 1 / 2 then f
         else if 1 / 2 < d then f + 1
         else if even f then f else f + 1)"

definition ilog2 :: "rat \<Rightarrow> int" where
  "ilog2 x =
     (let (a, b) = quotient_of x; k = bitlen a - bitlen b
      in if pow2 k \<le> x then k else k - 1)"

definition fl64 :: "rat \<Rightarrow> pyfloat" where
  "fl64 x =
     (if x = 0 then Finite 0
      else
        let e = max (ilog2 \<bar>x\<bar>) (- 1022);
            u = pow2 (e - 52);
            r = of_int (round_half_even (x / u)) * u
        in if 2 ^ 1024 \<le> r then PosInf
           else if r \<le> - (2 ^ 1024) then NegInf
           else Finite r)"

text \<open>The largest finite float, \<^verbatim>\<open>sys.float_info.max\<close>.\<close>

definition max_float :: rat where
  "max_float = (2 ^ 53 - 1) * 2 ^ 971"

text \<open>Converting an integer operand to float raises when it is too large.\<close>

definition float_of_int :: "int \<Rightarrow> py_error + pyfloat" where
  "float_of_int n =
     (case fl64 (of_int n) of Finite r \<Rightarrow> Inr (Finite r) | _ \<Rightarrow> Inl OverflowError)"

fun float_sgn :: "pyfloat \<Rightarrow> int" where
  "float_sgn (Finite a) = (if a = 0 then 0 else if 0 < a then 1 else - 1)"
| "float_sgn PosInf = 1"
| "float_sgn NegInf = - 1"
| "float_sgn NaN = 0"

text \<open>Float multiplication: no exception, overflow gives an infinity.\<close>

definition float_mul :: "pyfloat \<Rightarrow> pyfloat \<Rightarrow> pyfloat" where
  "float_mul x y =
     (case (x, y) of
        (Finite a, Finite b) \<Rightarrow> fl64 (a * b)
      | _ \<Rightarrow>
          if x = NaN \<or> y = NaN \<or> float_sgn x * float_sgn y = 0 then NaN
          else if 0 < float_sgn x * float_sgn y then PosInf
          else NegInf)"

text \<open>Float division: a zero divisor raises, whatever the dividend is.\<close>

definition float_div :: "pyfloat \<Rightarrow> pyfloat \<Rightarrow> py_error + pyfloat" where
  "float_div x y =
     (if y = Finite 0 then Inl ZeroDivisionError
      else Inr
        (case (x, y) of
           (Finite a, Finite b) \<Rightarrow> fl64 (a / b)
         | (Finite a, PosInf) \<Rightarrow> Finite 0
         | (Finite a, NegInf) \<Rightarrow> Finite 0
         | (PosInf, Finite b) \<Rightarrow> if 0 < b then PosInf else NegInf
         | (NegInf, Finite b) \<Rightarrow> if 0 < b then NegInf else PosInf
         | _ \<Rightarrow> NaN))"

fun is_number :: "pyval \<Rightarrow> bool" where
  "is_number (PInt n) = True"
| "is_number (PBool b) = True"
| "is_number (PFloat x) = True"
| "is_number _ = False"

text \<open>An operand of a float operation: a float, or an integer converted to one.\<close>

fun as_float :: "pyval \<Rightarrow> py_error + pyfloat" where
  "as_float (PFloat x) = Inr x"
| "as_float (PInt n) = float_of_int n"
| "as_float (PBool b) = float_of_int (if b then 1 else 0)"
| "as_float _ = Inl TypeError"

text \<open>\<^verbatim>\<open>x * y\<close> for a float \<open>x\<close>.\<close>

definition py_mul_float :: "pyfloat \<Rightarrow> pyval \<Rightarrow> py_error + pyfloat" where
  "py_mul_float x y =
     (case as_float y of Inl e \<Rightarrow> Inl e | Inr m \<Rightarrow> Inr (float_mul x m))"

text \<open>
  \<^verbatim>\<open>x / y\<close>. Two integers give the float nearest to the exact quotient, and raise when
  that is out of range. Otherwise both operands must be numbers, and the one that is an
  integer is converted to float first.
\<close>

definition py_truediv :: "pyval \<Rightarrow> pyval \<Rightarrow> py_error + pyfloat" where
  "py_truediv x y =
     (case (as_int x, as_int y) of
        (Some a, Some b) \<Rightarrow>
          if b = 0 then Inl ZeroDivisionError
          else (case fl64 (of_int a / of_int b) of
                  Finite r \<Rightarrow> Inr (Finite r)
                | _ \<Rightarrow> Inl OverflowError)
      | _ \<Rightarrow>
          if is_number x \<and> is_number y then
            (case as_float x of
               Inl e \<Rightarrow> Inl e
             | Inr a \<Rightarrow> (case as_float y of Inl e \<Rightarrow> Inl e | Inr b \<Rightarrow> float_div a b))
          else Inl TypeError)"

text \<open>\<^verbatim>\<open>int(x)\<close> for a float: truncation towards zero.\<close>

fun int_of_float :: "pyfloat \<Rightarrow> py_error + int" where
  "int_of_float (Finite a) = Inr (if 0 \<le> a then \<lfloor>a\<rfloor> else \<lceil>a\<rceil>)"
| "int_of_float PosInf = Inl OverflowError"
| "int_of_float NegInf = Inl OverflowError"
| "int_of_float NaN = Inl ValueError"

text \<open>\<^verbatim>\<open>x == k\<close> and \<^verbatim>\<open>x < k\<close> for an integer \<open>k\<close>.\<close>

fun py_eq_int :: "pyval \<Rightarrow> int \<Rightarrow> bool" where
  "py_eq_int (PInt n) k = (n = k)"
| "py_eq_int (PBool b) k = ((if b then 1 else 0) = k)"
| "py_eq_int (PFloat (Finite a)) k = (a = of_int k)"
| "py_eq_int _ k = False"

fun py_lt_int :: "pyval \<Rightarrow> int \<Rightarrow> py_error + bool" where
  "py_lt_int (PInt n) k = Inr (n < k)"
| "py_lt_int (PBool b) k = Inr ((if b then 1 else 0) < k)"
| "py_lt_int (PFloat (Finite a)) k = Inr (a < of_int k)"
| "py_lt_int (PFloat PosInf) k = Inr False"
| "py_lt_int (PFloat NegInf) k = Inr True"
| "py_lt_int (PFloat NaN) k = Inr False"
| "py_lt_int _ k = Inl TypeError"

section \<open>Lists of the Python runtime\<close>

text \<open>
  \<^verbatim>\<open>xs[i]\<close>: the index must be an integer; a negative one counts from the end; out of
  range raises.
\<close>

definition py_index :: "'a list \<Rightarrow> pyval \<Rightarrow> py_error + 'a" where
  "py_index xs i =
     (case as_int i of
        None \<Rightarrow> Inl TypeError
      | Some k \<Rightarrow>
          let n = int (length xs); j = (if k < 0 then k + n else k)
          in if 0 \<le> j \<and> j < n then Inr (xs ! nat j) else Inl IndexError)"

text \<open>\<^verbatim>\<open>xs.index(x)\<close>: the first position of \<open>x\<close>, \<open>None\<close> where Python raises \<^verbatim>\<open>ValueError\<close>.\<close>

fun index_of :: "'a list \<Rightarrow> 'a \<Rightarrow> nat option" where
  "index_of [] x = None"
| "index_of (y # ys) x = (if y = x then Some 0 else map_option Suc (index_of ys x))"

text \<open>
  What \<^verbatim>\<open>for e in x\<close> runs over: the elements of a list, the characters of a string,
  the keys of a dictionary.
\<close>

fun py_iter :: "pyval \<Rightarrow> py_error + pyval list" where
  "py_iter (PList xs) = Inr xs"
| "py_iter (PStr cs) = Inr (map (\<lambda>c. PStr [c]) cs)"
| "py_iter (PDict kvs) = Inr (map (\<lambda>kv. PStr (fst kv)) kvs)"
| "py_iter _ = Inl TypeError"

section \<open>Read accessors\<close>

text \<open>
  The two name tables \<^verbatim>\<open>temescal.equalisers\<close> and \<^verbatim>\<open>temescal.functions\<close> belong to
  the protocol library; every function that reads one takes it as its first argument.
\<close>

definition volume_level :: "lgdevice \<Rightarrow> py_error + pyval" where
  "volume_level s =
     (if \<not> py_eq_int (volume_max s) 0 then
        (case py_truediv (volume s) (volume_max s) of
           Inl e \<Rightarrow> Inl e
         | Inr q \<Rightarrow> Inr (PFloat q))
      else Inr (PInt 0))"

text \<open>
  The loop shared by \<^verbatim>\<open>sound_mode_list\<close> and \<^verbatim>\<open>source_list\<close>: for every element
  below the table's length, append the table's entry at it.
\<close>

fun append_names :: "string list \<Rightarrow> pyval list \<Rightarrow> string list \<Rightarrow> py_error + string list" where
  "append_names tbl [] acc = Inr acc"
| "append_names tbl (x # xs) acc =
     (case py_lt_int x (int (length tbl)) of
        Inl e \<Rightarrow> Inl e
      | Inr below \<Rightarrow>
          if below then
            (case py_index tbl x of
               Inl e \<Rightarrow> Inl e
             | Inr name \<Rightarrow> append_names tbl xs (acc @ [name]))
          else append_names tbl xs acc)"

definition sound_mode_list :: "string list \<Rightarrow> lgdevice \<Rightarrow> py_error + string list" where
  "sound_mode_list temescal_equalisers s =
     (case py_iter (equalisers s) of
        Inl e \<Rightarrow> Inl e
      | Inr xs \<Rightarrow>
          (case append_names temescal_equalisers xs [] of
             Inl e \<Rightarrow> Inl e
           | Inr modes \<Rightarrow> Inr (sort modes)))"

definition source_list :: "string list \<Rightarrow> lgdevice \<Rightarrow> py_error + string list" where
  "source_list temescal_functions s =
     (case py_iter (functions_attr s) of
        Inl e \<Rightarrow> Inl e
      | Inr xs \<Rightarrow>
          (case append_names temescal_functions xs [] of
             Inl e \<Rightarrow> Inl e
           | Inr sources \<Rightarrow> Inr (sort sources)))"

section \<open>Commands\<close>

text \<open>
  \<^verbatim>\<open>set_volume_level\<close>: the product is computed first; then the call's target
  \<^verbatim>\<open>self._device.set_volume\<close> is looked up, which fails on an entity that never
  connected; then the argument \<^verbatim>\<open>int(volume)\<close>; then the command is sent.
\<close>

definition set_volume_level :: "lgdevice \<Rightarrow> pyfloat \<Rightarrow> completion \<times> lgdevice" where
  "set_volume_level s vol =
     (case py_mul_float vol (volume_max s) of
        Inl e \<Rightarrow> (Raised e, s)
      | Inr v \<Rightarrow>
          (case device s of
             None \<Rightarrow> (Raised AttributeError, s)
           | Some sent \<Rightarrow>
               (case int_of_float v of
                  Inl e \<Rightarrow> (Raised e, s)
                | Inr n \<Rightarrow> (Returned, s\<lparr>device := Some (sent @ [SetVolume n])\<rparr>))))"

text \<open>
  \<^verbatim>\<open>select_source\<close> and \<^verbatim>\<open>select_sound_mode\<close>: the call's target is looked up, then
  the argument \<^verbatim>\<open>.index(name)\<close> is evaluated, then the command is sent.
\<close>

definition select_source :: "string list \<Rightarrow> lgdevice \<Rightarrow> string \<Rightarrow> completion \<times> lgdevice" where
  "select_source temescal_functions s source =
     (case device s of
        None \<Rightarrow> (Raised AttributeError, s)
      | Some sent \<Rightarrow>
          (case index_of temescal_functions source of
             None \<Rightarrow> (Raised ValueError, s)
           | Some i \<Rightarrow> (Returned, s\<lparr>device := Some (sent @ [SetFunc i])\<rparr>)))"

definition select_sound_mode :: "string list \<Rightarrow> lgdevice \<Rightarrow> string \<Rightarrow> completion \<times> lgdevice" where
  "select_sound_mode temescal_equalisers s sound_mode =
     (case device s of
        None \<Rightarrow> (Raised AttributeError, s)
      | Some sent \<Rightarrow>
          (case index_of temescal_equalisers sound_mode of
             None \<Rightarrow> (Raised ValueError, s)
           | Some i \<Rightarrow> (Returned, s\<lparr>device := Some (sent @ [SetEq i])\<rparr>)))"

section \<open>The declared field sets\<close>





section \<open>What one event does\<close>

text \<open>
  One equation per message kind: the object after \<open>handle_event\<close>, written as a single
  update of the object before. The proofs below use these instead of unfolding the
  dispatch again.
\<close>

lemma get_value_idem: "get_value d k (get_value d k x) = get_value d k x"
  by (simp add: get_value_def split: option.splits)

lemma handle_event_eq:
  "msg r = ''EQ_VIEW_INFO'' \<Longrightarrow> handle_event s r =
     (Returned, s\<lparr>bass := get_value (data r) ''i_bass'' (bass s),
                  treble := get_value (data r) ''i_treble'' (treble s),
                  equalisers := get_value (data r) ''ai_eq_list'' (equalisers s),
                  equaliser := get_value (data r) ''i_curr_eq'' (equaliser s),
                  state_updates := state_updates s + 1\<rparr>)"
  by (simp add: handle_event_def schedule_update_ha_state_def handle_eq_view_info_event_def Let_def)

lemma handle_event_func:
  "msg r = ''FUNC_VIEW_INFO'' \<Longrightarrow> handle_event s r =
     (Returned, s\<lparr>function_attr := get_value (data r) ''i_curr_func'' (function_attr s),
                  functions_attr := get_value (data r) ''ai_func_list'' (functions_attr s),
                  state_updates := state_updates s + 1\<rparr>)"
  by (simp add: handle_event_def schedule_update_ha_state_def handle_func_view_info_event_def Let_def)

lemma handle_event_setting:
  "msg r = ''SETTING_VIEW_INFO'' \<Longrightarrow> handle_event s r =
     (Returned, s\<lparr>rear_volume_min := get_value (data r) ''i_rear_min'' (rear_volume_min s),
                  rear_volume_max := get_value (data r) ''i_rear_max'' (rear_volume_max s),
                  rear_volume := get_value (data r) ''i_rear_level'' (rear_volume s),
                  woofer_volume_min := get_value (data r) ''i_woofer_min'' (woofer_volume_min s),
                  woofer_volume_max := get_value (data r) ''i_woofer_max'' (woofer_volume_max s),
                  woofer_volume := get_value (data r) ''i_woofer_level'' (woofer_volume s),
                  equaliser := get_value (data r) ''i_curr_eq'' (equaliser s),
                  attr_name := get_value (data r) ''s_user_name'' (attr_name s),
                  state_updates := state_updates s + 1\<rparr>)"
  by (simp add: handle_event_def schedule_update_ha_state_def handle_setting_view_info_event_def Let_def)

lemma handle_event_spk:
  "msg r = ''SPK_LIST_VIEW_INFO'' \<Longrightarrow> handle_event s r =
     (if data r ''b_powerstatus'' = None then
        (Returned, s\<lparr>volume := get_value (data r) ''i_vol'' (volume s),
                     volume_min := get_value (data r) ''i_vol_min'' (volume_min s),
                     volume_max := get_value (data r) ''i_vol_max'' (volume_max s),
                     function_attr := get_value (data r) ''i_curr_func'' (function_attr s),
                     state_updates := state_updates s + 1\<rparr>)
      else
        (case data r ''b_power_status'' of
           None \<Rightarrow>
             (Raised (KeyError ''b_power_status''),
              s\<lparr>volume := get_value (data r) ''i_vol'' (volume s),
                volume_min := get_value (data r) ''i_vol_min'' (volume_min s),
                volume_max := get_value (data r) ''i_vol_max'' (volume_max s),
                function_attr := get_value (data r) ''i_curr_func'' (function_attr s)\<rparr>)
         | Some v \<Rightarrow>
             (Returned, s\<lparr>volume := get_value (data r) ''i_vol'' (volume s),
                          volume_min := get_value (data r) ''i_vol_min'' (volume_min s),
                          volume_max := get_value (data r) ''i_vol_max'' (volume_max s),
                          function_attr := get_value (data r) ''i_curr_func'' (function_attr s),
                          attr_state := if truthy v then ON else OFF,
                          state_updates := state_updates s + 1\<rparr>)))"
  by (simp add: handle_event_def schedule_update_ha_state_def handle_spk_list_view_info_event_def
      Let_def split: option.splits)

lemma handle_event_other:
  "msg r \<notin> {''EQ_VIEW_INFO'', ''SPK_LIST_VIEW_INFO'', ''FUNC_VIEW_INFO'', ''SETTING_VIEW_INFO''} \<Longrightarrow>
   handle_event s r = (Returned, s\<lparr>state_updates := state_updates s + 1\<rparr>)"
  by (simp add: handle_event_def schedule_update_ha_state_def Let_def)

lemma handle_event_mute: "mute (snd (handle_event s r)) = mute s"
proof -
  consider (eq) "msg r = ''EQ_VIEW_INFO''" | (spk) "msg r = ''SPK_LIST_VIEW_INFO''"
    | (func) "msg r = ''FUNC_VIEW_INFO''" | (setting) "msg r = ''SETTING_VIEW_INFO''"
    | (other) "msg r \<notin> {''EQ_VIEW_INFO'', ''SPK_LIST_VIEW_INFO'', ''FUNC_VIEW_INFO'', ''SETTING_VIEW_INFO''}"
    by auto
  then show ?thesis
  proof cases
    case eq
    then show ?thesis by (simp add: handle_event_eq)
  next
    case spk
    then show ?thesis by (simp add: handle_event_spk split: option.splits)
  next
    case func
    then show ?thesis by (simp add: handle_event_func)
  next
    case setting
    then show ?thesis by (simp add: handle_event_setting)
  next
    case other
    then show ?thesis by (simp add: handle_event_other)
  qed
qed

section \<open>Merging events into the snapshot\<close>




section \<open>The two power-status keys\<close>

text \<open>
  Claim C2. A \<^verbatim>\<open>SPK_LIST_VIEW_INFO\<close> message whose payload has \<^verbatim>\<open>b_power_status\<close> with
  value false and has no key \<^verbatim>\<open>b_powerstatus\<close> leaves the power state as it was before
  the event.
\<close>

theorem spk_power_status_alone_retains_power:
  assumes "d ''b_power_status'' = Some (PBool False)" and "d ''b_powerstatus'' = None"
  shows "attr_state (snd (handle_event s \<lparr>msg = ''SPK_LIST_VIEW_INFO'', data = d\<rparr>)) = attr_state s"
  using assms by (simp add: handle_event_spk)

theorem spk_power_status_alone_retains_power_witness:
  "attr_state (snd (handle_event (lgdevice_init ''h'' 0 None)
      \<lparr>msg = ''SPK_LIST_VIEW_INFO'', data = [''b_power_status'' \<mapsto> PBool False]\<rparr>)) = ON"
  using spk_power_status_alone_retains_power
    [of "[''b_power_status'' \<mapsto> PBool False]" "lgdevice_init ''h'' 0 None"]
  by (simp add: lgdevice_init_def)

text \<open>
  Claim C10. A \<^verbatim>\<open>SPK_LIST_VIEW_INFO\<close> message whose payload has the key
  \<^verbatim>\<open>b_powerstatus\<close> and lacks the key \<^verbatim>\<open>b_power_status\<close> makes \<open>handle_event\<close> look the
  absent key up without a guard: the call ends in \<^verbatim>\<open>KeyError\<close>, whatever the object
  and the rest of the payload are.
\<close>

theorem spk_power_lookup_raises:
  assumes "d ''b_powerstatus'' = Some v" and "d ''b_power_status'' = None"
  shows "fst (handle_event s \<lparr>msg = ''SPK_LIST_VIEW_INFO'', data = d\<rparr>)
           = Raised (KeyError ''b_power_status'')"
  using assms by (simp add: handle_event_spk)

theorem spk_power_lookup_raises_witness:
  "fst (handle_event (lgdevice_init ''h'' 0 None)
      \<lparr>msg = ''SPK_LIST_VIEW_INFO'', data = [''b_powerstatus'' \<mapsto> PBool False]\<rparr>)
     = Raised (KeyError ''b_power_status'')"
  using spk_power_lookup_raises
    [of "[''b_powerstatus'' \<mapsto> PBool False]" "PBool False" "lgdevice_init ''h'' 0 None"]
  by simp

section \<open>The notification\<close>

text \<open>
  Claim C7 says that the notification is invoked after every message of any kind. For a
  message of an unrecognised kind this is \<open>handle_event_other\<close> above: no attribute
  changes, nothing is raised, one notification is counted. It fails for the message
  below, of kind \<^verbatim>\<open>SPK_LIST_VIEW_INFO\<close> with the single key \<^verbatim>\<open>b_powerstatus\<close>: the lookup
  of \<^verbatim>\<open>b_power_status\<close> raises, \<open>handle_event\<close> is left before
  \<^verbatim>\<open>schedule_update_ha_state\<close> is reached, and the count of notifications stays 0.
\<close>

theorem spk_key_error_skips_notification:
  "handle_event (lgdevice_init ''h'' 0 None)
      \<lparr>msg = ''SPK_LIST_VIEW_INFO'', data = [''b_powerstatus'' \<mapsto> PBool True]\<rparr>
     = (Raised (KeyError ''b_power_status''), lgdevice_init ''h'' 0 None)
   \<and> state_updates (lgdevice_init ''h'' 0 None) = 0"
  by (simp add: handle_event_spk get_value_def lgdevice_init_def)

section \<open>Repeating an event\<close>

text \<open>
  Claim C8. For every object and every message, handling the message a second time
  leaves every attribute as the first handling left it: the two objects differ at most
  in the count of notifications. The second call also ends the way the first did.
\<close>

theorem handle_event_idempotent:
  "snd (handle_event (snd (handle_event s r)) r) =
     (snd (handle_event s r))
       \<lparr>state_updates := state_updates (snd (handle_event (snd (handle_event s r)) r))\<rparr>
   \<and> fst (handle_event (snd (handle_event s r)) r) = fst (handle_event s r)"
proof -
  consider (eq) "msg r = ''EQ_VIEW_INFO''" | (spk) "msg r = ''SPK_LIST_VIEW_INFO''"
    | (func) "msg r = ''FUNC_VIEW_INFO''" | (setting) "msg r = ''SETTING_VIEW_INFO''"
    | (other) "msg r \<notin> {''EQ_VIEW_INFO'', ''SPK_LIST_VIEW_INFO'', ''FUNC_VIEW_INFO'', ''SETTING_VIEW_INFO''}"
    by auto
  then show ?thesis
  proof cases
    case eq
    then show ?thesis by (simp add: handle_event_eq get_value_idem)
  next
    case spk
    then show ?thesis
      by (cases "data r ''b_power_status''"; cases "data r ''b_powerstatus''")
         (simp_all add: handle_event_spk get_value_idem)
  next
    case func
    then show ?thesis by (simp add: handle_event_func get_value_idem)
  next
    case setting
    then show ?thesis by (simp add: handle_event_setting get_value_idem)
  next
    case other
    then show ?thesis by (simp add: handle_event_other)
  qed
qed

section \<open>The mute attribute\<close>

text \<open>
  Claim C9. No event handler writes the mute attribute: after any sequence of messages,
  of any kinds and payloads, fed to a freshly constructed object, \<open>is_volume_muted\<close>
  returns the integer 0 that the constructor stored, which is not a boolean and tests
  as false.
\<close>

theorem mute_never_written:
  "is_volume_muted (handle_events (lgdevice_init h p uid) rs) = PInt 0
   \<and> \<not> truthy (is_volume_muted (handle_events (lgdevice_init h p uid) rs))"
proof -
  have "mute (handle_events s rs) = mute s" for s
    by (induction rs arbitrary: s) (simp_all add: handle_event_mute)
  then show ?thesis by (simp add: is_volume_muted_def lgdevice_init_def)
qed

section \<open>Facts about rounding\<close>

text \<open>
  What the volume theorems need of binary64 rounding. A number whose magnitude is at
  most \<open>K * 2^b\<close>, for a significand \<open>K\<close> below \<open>2^53\<close>, rounds to a finite float of
  magnitude at most \<open>K * 2^b\<close> and of the same sign; in particular rounding never leaves
  \<open>[-1, 1]\<close> nor \<open>[-max_float, max_float]\<close>. A number that is a float already is
  rounded to itself.
\<close>

lemma pow2_powi: "pow2 e = power_int 2 e"
  by (simp add: pow2_def power_int_def inverse_eq_divide power_one_over)

lemma pow2_pos: "0 < pow2 e"
  by (simp add: pow2_powi)

lemma pow2_add: "pow2 (a + b) = pow2 a * pow2 b"
  by (simp add: pow2_powi power_int_add)

lemma pow2_mono: "a \<le> b \<Longrightarrow> pow2 a \<le> pow2 b"
  by (simp add: pow2_powi power_int_increasing)

lemma pow2_strict_mono: "a < b \<Longrightarrow> pow2 a < pow2 b"
  by (simp add: pow2_powi power_int_strict_increasing)

lemma pow2_le_imp_le: "pow2 a \<le> pow2 b \<Longrightarrow> a \<le> b"
  using pow2_strict_mono [of b a] by (cases "a \<le> b") auto

lemma pow2_less_imp_less: "pow2 a < pow2 b \<Longrightarrow> a < b"
  using pow2_mono [of b a] by (cases "a < b") auto

lemma pow2_of_int: "0 \<le> e \<Longrightarrow> pow2 e = of_int (2 ^ nat e)"
  by (simp add: pow2_def)

lemma ilog2_lower:
  assumes "0 < x"
  shows "pow2 (ilog2 x) \<le> x"
proof -
  obtain a b where q: "quotient_of x = (a, b)" by (cases "quotient_of x")
  have b: "0 < b" using q by (rule quotient_of_denom_pos)
  have x: "x = of_int a / of_int b" using q by (rule quotient_of_div)
  have a: "0 < a" using assms b x by (simp add: zero_less_divide_iff)
  define k where "k = bitlen a - bitlen b"
  show ?thesis
  proof (cases "pow2 k \<le> x")
    case True
    then show ?thesis by (simp add: ilog2_def q k_def)
  next
    case False
    have la: "(2::int) ^ nat (bitlen a - 1) \<le> a" using bitlen_bounds [OF a] by simp
    have lb: "b < (2::int) ^ nat (bitlen b)" using bitlen_bounds [OF b] by simp
    have ba: "1 \<le> bitlen a" using a by (simp add: bitlen_alt_def)
    have bb: "0 \<le> bitlen b" by (rule bitlen_nonneg)
    have 1: "pow2 (bitlen a - 1) \<le> of_int a"
      using la ba by (simp add: pow2_of_int)
    have 2: "(of_int b :: rat) \<le> pow2 (bitlen b)"
      using lb bb by (simp add: pow2_of_int less_imp_le)
    have "pow2 (k - 1) * of_int b \<le> pow2 (k - 1) * pow2 (bitlen b)"
      using 2 pow2_pos [of "k - 1"] by (simp add: mult_left_mono)
    also have "\<dots> = pow2 (bitlen a - 1)"
      by (simp add: k_def flip: pow2_add)
    also have "\<dots> \<le> of_int a" by (rule 1)
    finally have "pow2 (k - 1) \<le> x"
      using b by (simp add: x pos_le_divide_eq)
    with False show ?thesis by (simp add: ilog2_def q k_def)
  qed
qed

lemma ilog2_upper:
  assumes "0 < x"
  shows "x < pow2 (ilog2 x + 1)"
proof -
  obtain a b where q: "quotient_of x = (a, b)" by (cases "quotient_of x")
  have b: "0 < b" using q by (rule quotient_of_denom_pos)
  have x: "x = of_int a / of_int b" using q by (rule quotient_of_div)
  have a: "0 < a" using assms b x by (simp add: zero_less_divide_iff)
  define k where "k = bitlen a - bitlen b"
  show ?thesis
  proof (cases "pow2 k \<le> x")
    case False
    then show ?thesis by (simp add: ilog2_def q k_def)
  next
    case True
    have la: "a < (2::int) ^ nat (bitlen a)" using bitlen_bounds [OF a] by simp
    have lb: "(2::int) ^ nat (bitlen b - 1) \<le> b" using bitlen_bounds [OF b] by simp
    have ba: "0 \<le> bitlen a" by (rule bitlen_nonneg)
    have bb: "1 \<le> bitlen b" using b by (simp add: bitlen_alt_def)
    have 1: "of_int a < pow2 (bitlen a)"
      using la ba by (simp add: pow2_of_int)
    have 2: "pow2 (bitlen b - 1) \<le> (of_int b :: rat)"
      using lb bb by (simp add: pow2_of_int)
    have "of_int a < pow2 (bitlen a)" by (rule 1)
    also have "\<dots> = pow2 (k + 1) * pow2 (bitlen b - 1)"
      by (simp add: k_def flip: pow2_add)
    also have "\<dots> \<le> pow2 (k + 1) * of_int b"
      using 2 pow2_pos [of "k + 1"] by (simp add: mult_left_mono)
    finally have "x < pow2 (k + 1)"
      using b by (simp add: x pos_divide_less_eq)
    with True show ?thesis by (simp add: ilog2_def q k_def)
  qed
qed

lemma round_half_even_le:
  assumes "x \<le> of_int N"
  shows "round_half_even x \<le> N"
proof -
  have f: "\<lfloor>x\<rfloor> \<le> N" using assms by (simp add: floor_le_iff)
  show ?thesis
  proof (cases "\<lfloor>x\<rfloor> = N")
    case True
    then have "x = of_int \<lfloor>x\<rfloor>" using assms of_int_floor_le [of x] by simp
    then have "x - of_int \<lfloor>x\<rfloor> = 0" by simp
    then show ?thesis using True by (simp add: round_half_even_def Let_def)
  next
    case False
    with f have "\<lfloor>x\<rfloor> + 1 \<le> N" by simp
    then show ?thesis by (simp add: round_half_even_def Let_def)
  qed
qed

lemma round_half_even_ge:
  assumes "of_int N \<le> x"
  shows "N \<le> round_half_even x"
proof -
  have "N \<le> \<lfloor>x\<rfloor>" using assms by (simp add: le_floor_iff)
  then show ?thesis by (simp add: round_half_even_def Let_def)
qed

lemma fl64_within:
  assumes K: "0 < K" "K < 2 ^ 53" and b: "- 1074 \<le> b"
    and top: "of_int K * pow2 b < 2 ^ 1024"
    and x: "\<bar>x\<bar> \<le> of_int K * pow2 b"
  shows "\<exists>r. fl64 x = Finite r \<and> \<bar>r\<bar> \<le> of_int K * pow2 b
           \<and> (0 \<le> x \<longrightarrow> 0 \<le> r) \<and> (x \<le> 0 \<longrightarrow> r \<le> 0)"
proof (cases "x = 0")
  case True
  then show ?thesis using K(1) pow2_pos [of b] by (simp add: fl64_def less_imp_le)
next
  case False
  define e where "e = max (ilog2 \<bar>x\<bar>) (- 1022)"
  define u where "u = pow2 (e - 52)"
  define n where "n = round_half_even (x / u)"
  define N :: int where "N = K * 2 ^ nat (b + 52 - e)"
  have u: "0 < u" by (simp add: u_def pow2_pos)
  have "pow2 (ilog2 \<bar>x\<bar>) \<le> \<bar>x\<bar>"
    using ilog2_lower [of "\<bar>x\<bar>"] False by simp
  also have "\<dots> \<le> of_int K * pow2 b" by (rule x)
  also have "\<dots> < of_int (2 ^ 53) * pow2 b"
    using K(2) pow2_pos [of b] by (intro mult_strict_right_mono) (simp_all only: of_int_less_iff)
  also have "\<dots> = pow2 (53 + b)"
    by (simp add: pow2_add) (simp add: pow2_def)
  finally have "ilog2 \<bar>x\<bar> < 53 + b" by (rule pow2_less_imp_less)
  then have e: "e \<le> b + 52" using b by (simp add: e_def)
  have Nu: "of_int N * u = of_int K * pow2 b"
  proof -
    have "of_int N = of_int K * pow2 (b + 52 - e)" using e by (simp add: N_def pow2_of_int)
    then have "of_int N * u = of_int K * (pow2 (b + 52 - e) * pow2 (e - 52))"
      by (simp add: u_def)
    then show ?thesis by (simp flip: pow2_add)
  qed
  have "x / u \<le> of_int N"
    using x u Nu by (simp add: pos_divide_le_eq abs_le_iff)
  then have n1: "n \<le> N" unfolding n_def by (rule round_half_even_le)
  have "of_int (- N) \<le> x / u"
    using x u Nu by (simp add: pos_le_divide_eq abs_le_iff)
  then have n2: "- N \<le> n" unfolding n_def by (rule round_half_even_ge)
  have "\<bar>of_int n * u\<bar> = of_int \<bar>n\<bar> * u" using u by (simp add: abs_mult)
  also have "\<dots> \<le> of_int N * u"
    using n1 n2 u by (simp add: mult_right_mono abs_le_iff)
  finally have r: "\<bar>of_int n * u\<bar> \<le> of_int K * pow2 b" by (simp add: Nu)
  have fin: "fl64 x = Finite (of_int n * u)"
    using False r top by (simp add: fl64_def Let_def n_def u_def e_def abs_le_iff)
  have pos: "0 \<le> of_int n * u" if "0 \<le> x"
  proof -
    have "of_int 0 \<le> x / u" using that u by simp
    then have "0 \<le> n" unfolding n_def by (rule round_half_even_ge)
    then show ?thesis using u by simp
  qed
  have neg: "of_int n * u \<le> 0" if "x \<le> 0"
  proof -
    have "x / u \<le> of_int 0" using that u by (simp add: divide_le_0_iff)
    then have "n \<le> 0" unfolding n_def by (rule round_half_even_le)
    then show ?thesis using u by (simp add: mult_le_0_iff)
  qed
  show ?thesis using fin r pos neg by blast
qed

lemma fl64_unit:
  assumes "\<bar>x\<bar> \<le> 1"
  shows "\<exists>r. fl64 x = Finite r \<and> \<bar>r\<bar> \<le> 1 \<and> (0 \<le> x \<longrightarrow> 0 \<le> r)"
  using fl64_within [of 1 0 x] assms by (auto simp add: pow2_def)

lemma fl64_max_float:
  assumes "\<bar>x\<bar> \<le> max_float"
  shows "\<exists>r. fl64 x = Finite r \<and> \<bar>r\<bar> \<le> max_float \<and> (x = 0 \<longrightarrow> r = 0)"
proof -
  have m: "max_float = of_int (2 ^ 53 - 1) * pow2 971"
    by (simp add: max_float_def pow2_def)
  have "of_int (2 ^ 53 - 1) * pow2 971 < (2 ^ 1024 :: rat)"
    by (simp add: pow2_def)
  from fl64_within [OF _ _ _ this, of x] assms
  obtain r where "fl64 x = Finite r" "\<bar>r\<bar> \<le> max_float" "0 \<le> x \<longrightarrow> 0 \<le> r" "x \<le> 0 \<longrightarrow> r \<le> 0"
    by (auto simp add: m)
  then show ?thesis by auto
qed

lemma round_half_even_of_int: "round_half_even (of_int k) = k"
  by (simp add: round_half_even_def)

lemma fl64_exact:
  assumes n: "\<bar>n\<bar> < 2 ^ 53" and j: "- 1074 \<le> j" "j \<le> 970"
  shows "fl64 (of_int n * pow2 j) = Finite (of_int n * pow2 j)"
proof (cases "n = 0")
  case True
  then show ?thesis by (simp add: fl64_def)
next
  case False
  define x where "x = of_int n * pow2 j"
  define e where "e = max (ilog2 \<bar>x\<bar>) (- 1022)"
  have x0: "x \<noteq> 0" using False pow2_pos [of j] by (simp add: x_def)
  have ax: "\<bar>x\<bar> = of_int \<bar>n\<bar> * pow2 j"
    using pow2_pos [of j] by (simp add: x_def abs_mult)
  have "pow2 (ilog2 \<bar>x\<bar>) \<le> \<bar>x\<bar>"
    using ilog2_lower [of "\<bar>x\<bar>"] x0 by simp
  also have "\<dots> < of_int (2 ^ 53) * pow2 j"
    unfolding ax using n pow2_pos [of j]
    by (intro mult_strict_right_mono) (simp_all only: of_int_less_iff)
  also have "\<dots> = pow2 (53 + j)"
    by (simp add: pow2_add) (simp add: pow2_def)
  finally have "ilog2 \<bar>x\<bar> < 53 + j" by (rule pow2_less_imp_less)
  then have e: "e - 52 \<le> j" using j by (simp add: e_def)
  define k :: int where "k = n * 2 ^ nat (j - (e - 52))"
  have "of_int k * pow2 (e - 52) = of_int n * (pow2 (j - (e - 52)) * pow2 (e - 52))"
    using e by (simp add: k_def pow2_of_int)
  then have ku: "of_int k * pow2 (e - 52) = x"
    by (simp add: x_def flip: pow2_add)
  then have "x / pow2 (e - 52) = of_int k"
    using pow2_pos [of "e - 52"] by (simp add: nonzero_divide_eq_eq)
  then have r: "of_int (round_half_even (x / pow2 (e - 52))) * pow2 (e - 52) = x"
    by (simp only: round_half_even_of_int ku)
  have "\<bar>x\<bar> < of_int (2 ^ 53) * pow2 j"
    unfolding ax using n pow2_pos [of j]
    by (intro mult_strict_right_mono) (simp_all only: of_int_less_iff)
  also have "\<dots> \<le> of_int (2 ^ 53) * pow2 970"
    using j pow2_mono [of j 970] by (intro mult_left_mono) simp_all
  also have "\<dots> < 2 ^ 1024" by (simp add: pow2_def)
  finally have "\<bar>x\<bar> < 2 ^ 1024" .
  then have "\<not> 2 ^ 1024 \<le> x" "\<not> x \<le> - (2 ^ 1024)" by (simp_all add: abs_less_iff)
  then have "fl64 x = Finite x"
    using x0 r by (simp add: fl64_def Let_def e_def)
  then show ?thesis by (simp add: x_def)
qed

lemma fl64_exact_int: "\<bar>n\<bar> < 2 ^ 53 \<Longrightarrow> fl64 (of_int n) = Finite (of_int n)"
  using fl64_exact [of n 0] by (simp add: pow2_def)

lemma float_of_int_max_float:
  assumes "\<bar>of_int m\<bar> \<le> max_float"
  shows "\<exists>mf. float_of_int m = Inr (Finite mf) \<and> \<bar>mf\<bar> \<le> max_float \<and> (m = 0 \<longrightarrow> mf = 0)"
  using fl64_max_float [OF assms] by (auto simp add: float_of_int_def)

lemma float_mul_fraction:
  assumes "0 \<le> l" "l \<le> 1" "\<bar>mf\<bar> \<le> max_float"
  shows "\<exists>p. float_mul (Finite l) (Finite mf) = Finite p \<and> (mf = 0 \<longrightarrow> p = 0)"
proof -
  have "\<bar>l * mf\<bar> = l * \<bar>mf\<bar>" using assms(1) by (simp add: abs_mult)
  also have "\<dots> \<le> 1 * \<bar>mf\<bar>" using assms(2) by (intro mult_right_mono) simp_all
  finally have "\<bar>l * mf\<bar> \<le> max_float" using assms(3) by simp
  from fl64_max_float [OF this] show ?thesis by (auto simp add: float_mul_def)
qed

section \<open>Volume\<close>

text \<open>
  Claim C4, as amended. For every snapshot whose volume and maximum volume are integers
  with \<open>0 \<le> volume\<close>: if \<open>0 < volume_max\<close> and \<open>volume \<le> volume_max\<close> then
  \<open>volume_level\<close> returns a float in \<open>[0, 1]\<close>; if \<open>volume_max = 0\<close> it returns 0.
\<close>

theorem volume_level_bounds:
  assumes "volume s = PInt v" and "volume_max s = PInt m" and "0 \<le> v"
  shows "(0 < m \<and> v \<le> m \<longrightarrow>
            (\<exists>q. volume_level s = Inr (PFloat (Finite q)) \<and> 0 \<le> q \<and> q \<le> 1))
       \<and> (m = 0 \<longrightarrow> volume_level s = Inr (PInt 0))"
proof (intro conjI impI)
  assume m: "0 < m \<and> v \<le> m"
  have pos: "0 \<le> (of_int v / of_int m :: rat)" using m assms(3) by simp
  have "\<bar>of_int v / of_int m :: rat\<bar> \<le> 1" using m assms(3) by simp
  from fl64_unit [OF this] pos
  obtain q where q: "fl64 (of_int v / of_int m) = Finite q" "\<bar>q\<bar> \<le> 1" "0 \<le> q"
    by auto
  have "volume_level s = Inr (PFloat (Finite q))"
    using assms(1,2) m q(1) by (simp add: volume_level_def py_truediv_def)
  with q show "\<exists>q. volume_level s = Inr (PFloat (Finite q)) \<and> 0 \<le> q \<and> q \<le> 1"
    by auto
next
  assume "m = 0"
  then show "volume_level s = Inr (PInt 0)"
    using assms(2) by (simp add: volume_level_def)
qed

text \<open>
  The theorem after a speaker message that reports volume 20 of 40, and on a freshly
  constructed object, whose maximum volume is 0.
\<close>

theorem volume_level_bounds_witness:
  "(\<exists>q. volume_level (snd (handle_event (lgdevice_init ''h'' 0 None)
        \<lparr>msg = ''SPK_LIST_VIEW_INFO'',
         data = [''i_vol'' \<mapsto> PInt 20, ''i_vol_max'' \<mapsto> PInt 40]\<rparr>))
      = Inr (PFloat (Finite q)) \<and> 0 \<le> q \<and> q \<le> 1)
   \<and> volume_level (lgdevice_init ''h'' 0 None) = Inr (PInt 0)"
  using
    volume_level_bounds [of "snd (handle_event (lgdevice_init ''h'' 0 None)
        \<lparr>msg = ''SPK_LIST_VIEW_INFO'',
         data = [''i_vol'' \<mapsto> PInt 20, ''i_vol_max'' \<mapsto> PInt 40]\<rparr>)" 20 40]
    volume_level_bounds [of "lgdevice_init ''h'' 0 None" 0 0]
  by (simp add: handle_event_spk get_value_def lgdevice_init_def)

text \<open>
  Claim C4 as stated fails: nothing keeps the volume below the maximum. After a speaker
  message that reports volume 50 of 40, \<open>volume_level\<close> returns 1.25.
\<close>

theorem volume_level_above_one:
  "volume_level (snd (handle_event (lgdevice_init ''h'' 0 None)
        \<lparr>msg = ''SPK_LIST_VIEW_INFO'',
         data = [''i_vol'' \<mapsto> PInt 50, ''i_vol_max'' \<mapsto> PInt 40]\<rparr>))
      = Inr (PFloat (Finite (5 / 4)))
   \<and> \<not> (5 / 4 \<le> (1 :: rat))"
proof -
  have "fl64 (of_int 50 / of_int 40) = Finite (5 / 4)"
    using fl64_exact [of 5 "- 2"] by (simp add: pow2_def)
  then show ?thesis
    by (simp add: handle_event_spk get_value_def lgdevice_init_def volume_level_def
        py_truediv_def)
qed

text \<open>
  Claim C3, as amended. On a connected entity whose maximum volume is an integer \<open>m\<close>
  of magnitude at most the largest float, and for every level in \<open>[0, 1]\<close>,
  \<open>set_volume_level\<close> returns normally and sends exactly one volume command. Its
  argument is the float product of the level and \<open>m\<close> truncated towards zero, as
  \<^verbatim>\<open>int()\<close> does; it is not rounded to the nearest integer. When \<open>m\<close> is 0 the command
  carries volume 0.
\<close>

theorem set_volume_level_truncates:
  assumes "0 \<le> l" and "l \<le> 1" and "volume_max s = PInt m"
    and "\<bar>of_int m\<bar> \<le> max_float" and "device s = Some sent"
  shows "\<exists>mf p. float_of_int m = Inr (Finite mf)
            \<and> float_mul (Finite l) (Finite mf) = Finite p
            \<and> set_volume_level s (Finite l) =
                (Returned,
                 s\<lparr>device := Some (sent @ [SetVolume (if 0 \<le> p then \<lfloor>p\<rfloor> else \<lceil>p\<rceil>)])\<rparr>)
            \<and> (m = 0 \<longrightarrow> set_volume_level s (Finite l) =
                (Returned, s\<lparr>device := Some (sent @ [SetVolume 0])\<rparr>))"
proof -
  obtain mf where mf: "float_of_int m = Inr (Finite mf)" "\<bar>mf\<bar> \<le> max_float" "m = 0 \<longrightarrow> mf = 0"
    using float_of_int_max_float [OF assms(4)] by auto
  obtain p where p: "float_mul (Finite l) (Finite mf) = Finite p" "mf = 0 \<longrightarrow> p = 0"
    using float_mul_fraction [OF assms(1,2) mf(2)] by auto
  have run: "set_volume_level s (Finite l) =
      (Returned, s\<lparr>device := Some (sent @ [SetVolume (if 0 \<le> p then \<lfloor>p\<rfloor> else \<lceil>p\<rceil>)])\<rparr>)"
    using assms(3,5) mf(1) p(1) by (simp add: set_volume_level_def py_mul_float_def)
  have "m = 0 \<longrightarrow> p = 0" using mf(3) p(2) by simp
  with run mf(1) p(1) show ?thesis by auto
qed

text \<open>The theorem at level 0.5 and maximum volume 40: the command carries volume 20.\<close>

theorem set_volume_level_truncates_witness:
  "set_volume_level
     ((lgdevice_init ''h'' 0 None)\<lparr>volume_max := PInt 40, device := Some []\<rparr>) (Finite (1 / 2))
   = (Returned,
      (lgdevice_init ''h'' 0 None)\<lparr>volume_max := PInt 40, device := Some [SetVolume 20]\<rparr>)"
proof -
  have a: "float_of_int 40 = Inr (Finite 40)"
    using fl64_exact_int [of 40] by (simp add: float_of_int_def)
  have b: "float_mul (Finite (1 / 2)) (Finite 40) = Finite 20"
    using fl64_exact_int [of 20] by (simp add: float_mul_def)
  have c: "\<bar>of_int 40\<bar> \<le> max_float" by (simp add: max_float_def)
  show ?thesis
    using set_volume_level_truncates [of "1 / 2"
        "(lgdevice_init ''h'' 0 None)\<lparr>volume_max := PInt 40, device := Some []\<rparr>" 40 "[]"] a b c
    by (auto simp add: lgdevice_init_def)
qed

text \<open>
  Claim C3 as stated fails: at level 0.75 and maximum volume 1 the product is 0.75,
  which rounds to 1, and the command sent carries volume 0.
\<close>

theorem set_volume_level_not_rounded:
  "set_volume_level
     ((lgdevice_init ''h'' 0 None)\<lparr>volume_max := PInt 1, device := Some []\<rparr>) (Finite (3 / 4))
   = (Returned,
      (lgdevice_init ''h'' 0 None)\<lparr>volume_max := PInt 1, device := Some [SetVolume 0]\<rparr>)
   \<and> round_half_even (3 / 4 * 1) = 1"
proof -
  have "float_of_int 1 = Inr (Finite 1)"
    using fl64_exact_int [of 1] by (simp add: float_of_int_def)
  moreover have "float_mul (Finite (3 / 4)) (Finite 1) = Finite (3 / 4)"
    using fl64_exact [of 3 "- 2"] by (simp add: float_mul_def pow2_def)
  moreover have "\<lfloor>3 / 4 :: rat\<rfloor> = 0"
    by (rule floor_unique) simp_all
  ultimately show ?thesis
    by (simp add: set_volume_level_def py_mul_float_def lgdevice_init_def round_half_even_def)
qed

section \<open>The name lists\<close>

lemma py_index_in_set: "py_index tbl x = Inr name \<Longrightarrow> name \<in> set tbl"
  by (auto simp: py_index_def Let_def split: option.splits if_splits)

lemma append_names_origin:
  "append_names tbl xs acc = Inr r \<Longrightarrow> name \<in> set r \<Longrightarrow>
   name \<in> set acc \<or>
   (\<exists>x\<in>set xs. py_lt_int x (int (length tbl)) = Inr True \<and> py_index tbl x = Inr name)"
proof (induction xs arbitrary: acc)
  case Nil
  then show ?case by auto
next
  case (Cons x xs)
  show ?case
  proof (cases "py_lt_int x (int (length tbl))")
    case (Inl e)
    with Cons.prems show ?thesis by simp
  next
    case (Inr below)
    show ?thesis
    proof (cases below)
      case False
      with Inr Cons.prems have "append_names tbl xs acc = Inr r" by simp
      from Cons.IH [OF this Cons.prems(2)] show ?thesis by auto
    next
      case True
      show ?thesis
      proof (cases "py_index tbl x")
        case (Inl e)
        with True \<open>py_lt_int x (int (length tbl)) = Inr below\<close> Cons.prems show ?thesis by simp
      next
        case (Inr n)
        with True \<open>py_lt_int x (int (length tbl)) = Inr below\<close> Cons.prems
        have "append_names tbl xs (acc @ [n]) = Inr r" by simp
        from Cons.IH [OF this Cons.prems(2)]
        show ?thesis
          using True \<open>py_lt_int x (int (length tbl)) = Inr below\<close> Inr by auto
      qed
    qed
  qed
qed

lemma append_names_all_ints:
  "append_names tbl (map PInt ixs) acc =
     (if \<forall>i\<in>set ixs. - int (length tbl) \<le> i
      then Inr (acc @ map (\<lambda>i. tbl ! nat (if i < 0 then i + int (length tbl) else i))
                    (filter (\<lambda>i. i < int (length tbl)) ixs))
      else Inl IndexError)"
proof (induction ixs arbitrary: acc)
  case Nil
  then show ?case by simp
next
  case (Cons i ixs)
  show ?case
    by (auto simp add: Cons.IH py_index_def Let_def)
qed

lemma name_list_origin:
  assumes "py_iter v = Inr xs" and "append_names tbl xs [] = Inr modes" and "name \<in> set (sort modes)"
  shows "\<exists>x\<in>set xs. py_lt_int x (int (length tbl)) = Inr True \<and> py_index tbl x = Inr name"
  using append_names_origin [OF assms(2), of name] assms(3) by simp

text \<open>
  Claim C5, as amended. Whenever \<open>sound_mode_list\<close> or \<open>source_list\<close> returns, its
  result is sorted lexicographically, every entry is a name of its table, and every
  entry is the table's entry at a stored element that tests below the table's length:
  no entry derives from an index at or beyond the length. When the stored list holds
  integers the result is exact. If every index is at least minus the table's length,
  the result is the sorted list of the table's names at the listed indices below the
  length, a negative index counting from the end of the table; otherwise the call ends
  in \<^verbatim>\<open>IndexError\<close>. Negative indices are not filtered out.
\<close>

theorem name_lists_sorted_within_table:
  "(sound_mode_list E s = Inr r \<longrightarrow>
      sorted r \<and> set r \<subseteq> set E \<and>
      (\<forall>name\<in>set r. \<exists>xs x. py_iter (equalisers s) = Inr xs \<and> x \<in> set xs
          \<and> py_lt_int x (int (length E)) = Inr True \<and> py_index E x = Inr name))
 \<and> (source_list F s = Inr r' \<longrightarrow>
      sorted r' \<and> set r' \<subseteq> set F \<and>
      (\<forall>name\<in>set r'. \<exists>xs x. py_iter (functions_attr s) = Inr xs \<and> x \<in> set xs
          \<and> py_lt_int x (int (length F)) = Inr True \<and> py_index F x = Inr name))
 \<and> (equalisers s = PList (map PInt ixs) \<longrightarrow>
      sound_mode_list E s =
        (if \<forall>i\<in>set ixs. - int (length E) \<le> i
         then Inr (sort (map (\<lambda>i. E ! nat (if i < 0 then i + int (length E) else i))
                      (filter (\<lambda>i. i < int (length E)) ixs)))
         else Inl IndexError))
 \<and> (functions_attr s = PList (map PInt js) \<longrightarrow>
      source_list F s =
        (if \<forall>j\<in>set js. - int (length F) \<le> j
         then Inr (sort (map (\<lambda>j. F ! nat (if j < 0 then j + int (length F) else j))
                      (filter (\<lambda>j. j < int (length F)) js)))
         else Inl IndexError))"
proof (intro conjI impI)
  assume a: "sound_mode_list E s = Inr r"
  then obtain xs modes where x: "py_iter (equalisers s) = Inr xs"
      "append_names E xs [] = Inr modes" "r = sort modes"
    by (auto simp: sound_mode_list_def split: sum.splits)
  show "sorted r" using x(3) by simp
  show "set r \<subseteq> set E"
    using append_names_origin [OF x(2)] x(3) by (auto dest: py_index_in_set)
  show "\<forall>name\<in>set r. \<exists>xs x. py_iter (equalisers s) = Inr xs \<and> x \<in> set xs
          \<and> py_lt_int x (int (length E)) = Inr True \<and> py_index E x = Inr name"
    using name_list_origin [OF x(1,2)] x(1,3) by blast
next
  assume a: "source_list F s = Inr r'"
  then obtain xs srcs where x: "py_iter (functions_attr s) = Inr xs"
      "append_names F xs [] = Inr srcs" "r' = sort srcs"
    by (auto simp: source_list_def split: sum.splits)
  show "sorted r'" using x(3) by simp
  show "set r' \<subseteq> set F"
    using append_names_origin [OF x(2)] x(3) by (auto dest: py_index_in_set)
  show "\<forall>name\<in>set r'. \<exists>xs x. py_iter (functions_attr s) = Inr xs \<and> x \<in> set xs
          \<and> py_lt_int x (int (length F)) = Inr True \<and> py_index F x = Inr name"
    using name_list_origin [OF x(1,2)] x(1,3) by blast
next
  assume "equalisers s = PList (map PInt ixs)"
  then show "sound_mode_list E s =
        (if \<forall>i\<in>set ixs. - int (length E) \<le> i
         then Inr (sort (map (\<lambda>i. E ! nat (if i < 0 then i + int (length E) else i))
                      (filter (\<lambda>i. i < int (length E)) ixs)))
         else Inl IndexError)"
    by (simp add: sound_mode_list_def append_names_all_ints)
next
  assume "functions_attr s = PList (map PInt js)"
  then show "source_list F s =
        (if \<forall>j\<in>set js. - int (length F) \<le> j
         then Inr (sort (map (\<lambda>j. F ! nat (if j < 0 then j + int (length F) else j))
                      (filter (\<lambda>j. j < int (length F)) js)))
         else Inl IndexError)"
    by (simp add: source_list_def append_names_all_ints)
qed

text \<open>
  The theorem at a table of two equalisers and the index list \<open>[-1, 98]\<close>: index 98 is
  dropped, index \<open>-1\<close> lists the last name. The function list \<open>[1, 5, 0]\<close> of the same
  object drops index 5 and comes out sorted.
\<close>

theorem name_lists_sorted_within_table_witness:
  "sound_mode_list [''Standard'', ''Bass'']
      ((lgdevice_init ''h'' 0 None)
         \<lparr>functions_attr := PList [PInt 1, PInt 5, PInt 0], equalisers := PList [PInt (- 1), PInt 98]\<rparr>)
     = Inr [''Bass'']
   \<and> sorted [''Bass'']
   \<and> source_list [''Wi-Fi'', ''Bluetooth'']
      ((lgdevice_init ''h'' 0 None)
         \<lparr>functions_attr := PList [PInt 1, PInt 5, PInt 0], equalisers := PList [PInt (- 1), PInt 98]\<rparr>)
     = Inr [''Bluetooth'', ''Wi-Fi'']
   \<and> sorted [''Bluetooth'', ''Wi-Fi'']"
proof -
  have a: "sort [''Wi-Fi'', ''Bluetooth''] = [''Bluetooth'', ''Wi-Fi'']" by code_simp
  show ?thesis
    using name_lists_sorted_within_table [of "[''Standard'', ''Bass'']"
        "(lgdevice_init ''h'' 0 None)
         \<lparr>functions_attr := PList [PInt 1, PInt 5, PInt 0], equalisers := PList [PInt (- 1), PInt 98]\<rparr>"
        "[''Bass'']" "[''Wi-Fi'', ''Bluetooth'']" "[''Bluetooth'', ''Wi-Fi'']"
        "[- 1, 98]" "[1, 5, 0]"] a
    by (simp add: lgdevice_init_def)
qed

text \<open>
  Claim C5 as stated fails for negative indices: the loop only tests the index against
  the table's length, and indexing counts a negative index from the end. After an
  equaliser message with the index list \<open>[-1]\<close> the sound mode list holds the table's
  last name; the same happens with the function list.
\<close>

theorem negative_index_is_listed:
  "sound_mode_list [''Standard'', ''Bass'']
      (snd (handle_event (lgdevice_init ''h'' 0 None)
         \<lparr>msg = ''EQ_VIEW_INFO'', data = [''ai_eq_list'' \<mapsto> PList [PInt (- 1)]]\<rparr>))
     = Inr [''Bass'']
   \<and> source_list [''Wi-Fi'', ''Bluetooth'']
      (snd (handle_event (lgdevice_init ''h'' 0 None)
         \<lparr>msg = ''FUNC_VIEW_INFO'', data = [''ai_func_list'' \<mapsto> PList [PInt (- 1)]]\<rparr>))
     = Inr [''Bluetooth'']"
  by (simp add: handle_event_eq handle_event_func get_value_def lgdevice_init_def
      sound_mode_list_def source_list_def py_index_def)

section \<open>Selecting by name\<close>

lemma index_of_None: "index_of xs x = None \<longleftrightarrow> x \<notin> set xs"
  by (induction xs) auto

text \<open>
  Claim C6. On a connected entity, for every name that is absent from the function
  table, \<open>select_source\<close> ends in \<^verbatim>\<open>ValueError\<close> (the caller-input error that the
  specification calls NotFound) and leaves the object as it was: no command has been
  sent and no attribute has changed. The same holds of \<open>select_sound_mode\<close> and the
  equaliser table.
\<close>

theorem select_unknown_name_rejected:
  assumes "device s = Some sent"
  shows "(name \<notin> set F \<longrightarrow> select_source F s name = (Raised ValueError, s))
       \<and> (name \<notin> set E \<longrightarrow> select_sound_mode E s name = (Raised ValueError, s))"
  using assms
  by (simp add: select_source_def select_sound_mode_def index_of_None [THEN iffD2])

theorem select_unknown_name_rejected_witness:
  "select_source [''Wi-Fi'', ''Bluetooth'']
     ((lgdevice_init ''h'' 0 None)\<lparr>device := Some []\<rparr>) ''NoSuchInput''
     = (Raised ValueError, (lgdevice_init ''h'' 0 None)\<lparr>device := Some []\<rparr>)
   \<and> select_sound_mode [''Standard'', ''Bass'']
     ((lgdevice_init ''h'' 0 None)\<lparr>device := Some []\<rparr>) ''NoSuchInput''
     = (Raised ValueError, (lgdevice_init ''h'' 0 None)\<lparr>device := Some []\<rparr>)"
  using select_unknown_name_rejected [of "(lgdevice_init ''h'' 0 None)\<lparr>device := Some []\<rparr>" "[]"
      "''NoSuchInput''" "[''Wi-Fi'', ''Bluetooth'']" "[''Standard'', ''Bass'']"]
  by (simp add: lgdevice_init_def)

end
